theory Spec2Isabelle
  imports Main
begin

section \<open>The view tree\<close>

text \<open>
  The converters of \<^verbatim>\<open>src/converters/upcasttable.js\<close> read a view tree. A view node is an
  element (a name, a map of string attributes, an ordered sequence of children) or a text
  node. A text node has no \<^verbatim>\<open>name\<close> property and no \<^verbatim>\<open>getChildren\<close> method, so
  \<^verbatim>\<open>node.name\<close> is \<^verbatim>\<open>undefined\<close> on it and calling \<^verbatim>\<open>node.getChildren()\<close> raises
  a \<^verbatim>\<open>TypeError\<close>.
\<close>

datatype view_node =
    Element string "(string \<times> string) list" "view_node list"
  | Text string

datatype js_error = TypeError | CKEditorError

fun node_name :: "view_node \<Rightarrow> string option" where
  "node_name (Element name attrs children) = Some name"
| "node_name (Text data) = None"

fun getChildren :: "view_node \<Rightarrow> js_error + view_node list" where
  "getChildren (Element name attrs children) = Inr children"
| "getChildren (Text data) = Inl TypeError"

text \<open>
  \<^verbatim>\<open>getAttribute\<close> is only ever called on a node whose name is \<^verbatim>\<open>'th'\<close>, hence on an
  element; \<^verbatim>\<open>None\<close> stands for \<^verbatim>\<open>undefined\<close>.
\<close>

fun getAttribute :: "view_node \<Rightarrow> string \<Rightarrow> string option" where
  "getAttribute (Element name attrs children) key = map_of attrs key"
| "getAttribute (Text data) key = None"

section \<open>Numbers and \<^verbatim>\<open>parseInt\<close>\<close>

text \<open>
  A JavaScript number is an IEEE double. The numbers of the scan are read by
  \<^verbatim>\<open>parseInt\<close> and added up, so they are integers, and the model keeps them as exact
  integers with \<^verbatim>\<open>NaN\<close> beside them. Model and code agree as long as every value read and
  every partial sum has a magnitude of at most \<open>2 ^ 53\<close>: a double holds each such integer
  exactly, so neither \<^verbatim>\<open>parseInt\<close> nor \<^verbatim>\<open>+\<close> rounds. Beyond that bound the code rounds
  or overflows to an infinity and the model does not follow it; what is stated below about
  the value of a sum carries the bound (\<open>safe_row\<close>). The sign of a zero is not kept:
  \<^verbatim>\<open>-0\<close> only ever enters a sum that starts at \<^verbatim>\<open>0\<close>.
\<close>

datatype jsnum = Num int | NaN

fun js_add :: "jsnum \<Rightarrow> jsnum \<Rightarrow> jsnum" where
  "js_add (Num a) (Num b) = Num (a + b)"
| "js_add a b = NaN"

text \<open>\<^verbatim>\<open>a > b\<close>: false as soon as one side is \<^verbatim>\<open>NaN\<close>.\<close>

fun js_gt :: "jsnum \<Rightarrow> jsnum \<Rightarrow> bool" where
  "js_gt (Num a) (Num b) = (b < a)"
| "js_gt a b = False"

text \<open>Truthiness of a number: \<^verbatim>\<open>0\<close> and \<^verbatim>\<open>NaN\<close> are falsy.\<close>

fun js_truthy :: "jsnum \<Rightarrow> bool" where
  "js_truthy (Num a) = (a \<noteq> 0)"
| "js_truthy NaN = False"

text \<open>
  \<^verbatim>\<open>parseInt(string)\<close> with no radix, after ECMAScript: skip leading white space, read an
  optional sign, read an optional \<^verbatim>\<open>0x\<close>/\<^verbatim>\<open>0X\<close> prefix (radix 16, otherwise radix 10), take
  the longest prefix of digits of that radix; no digit at all gives \<^verbatim>\<open>NaN\<close>. A character
  of a string is a code unit below 256, so the white space is tab, line feed, vertical
  tab, form feed, carriage return, space and the no-break space U+00A0; the white space
  above U+00FF is outside the type.
\<close>

definition StrWhiteSpaceChar :: "char \<Rightarrow> bool" where
  "StrWhiteSpaceChar c \<longleftrightarrow>
     c = CHR 0x09 \<or> c = CHR 0x0A \<or> c = CHR 0x0B \<or> c = CHR 0x0C \<or> c = CHR 0x0D \<or> c = CHR 0x20 \<or>
     c = CHR 0xA0"

definition digit_of :: "char \<Rightarrow> nat option" where
  "digit_of ch =
     (let c = (of_char ch :: nat) in
      if 48 \<le> c \<and> c \<le> 57 then Some (c - 48)
      else if 97 \<le> c \<and> c \<le> 122 then Some (c - 87)
      else if 65 \<le> c \<and> c \<le> 90 then Some (c - 55)
      else None)"

definition radix_digit :: "nat \<Rightarrow> char \<Rightarrow> bool" where
  "radix_digit R ch = (case digit_of ch of None \<Rightarrow> False | Some d \<Rightarrow> d < R)"

definition digits_value :: "nat \<Rightarrow> string \<Rightarrow> nat" where
  "digits_value R Z =
     foldl (\<lambda>acc ch. acc * R + (case digit_of ch of None \<Rightarrow> 0 | Some d \<Rightarrow> d)) 0 Z"

definition parseInt :: "string \<Rightarrow> jsnum" where
  "parseInt inputString =
     (let S0 = dropWhile StrWhiteSpaceChar inputString;
          sign = (if S0 \<noteq> [] \<and> hd S0 = CHR ''-'' then - 1 else 1 :: int);
          S1 = (if S0 \<noteq> [] \<and> (hd S0 = CHR ''+'' \<or> hd S0 = CHR ''-'') then tl S0 else S0);
          hex = (2 \<le> length S1 \<and> (take 2 S1 = ''0x'' \<or> take 2 S1 = ''0X''));
          R = (if hex then 16 else 10);
          S2 = (if hex then drop 2 S1 else S1);
          Z = takeWhile (radix_digit R) S2
      in if Z = [] then NaN else Num (sign * int (digits_value R Z)))"

text \<open>
  \<^verbatim>\<open>parseInt( th.getAttribute( 'colspan' ) || 1 )\<close>: the operand of \<^verbatim>\<open>||\<close> is falsy when
  the attribute is absent (\<^verbatim>\<open>undefined\<close>) or the empty string; then \<^verbatim>\<open>parseInt\<close> receives
  the number \<^verbatim>\<open>1\<close>, which it first turns into the string \<^verbatim>\<open>"1"\<close>. Every other string,
  \<^verbatim>\<open>"0"\<close> included, is truthy and is parsed as it is.
\<close>

definition colspan_of :: "view_node \<Rightarrow> jsnum" where
  "colspan_of th =
     parseInt (case getAttribute th ''colspan'' of
                 None \<Rightarrow> ''1''
               | Some v \<Rightarrow> if v = [] then ''1'' else v)"

section \<open>The scanner\<close>

text \<open>
  The \<^verbatim>\<open>while\<close> loop of \<^verbatim>\<open>scanRowForHeadingColumns\<close>, on the children from \<^verbatim>\<open>index\<close> on:
  it goes on while the next child is a \<^verbatim>\<open>th\<close> and adds its parsed \<^verbatim>\<open>colspan\<close>.
\<close>

fun countHeadingCells :: "view_node list \<Rightarrow> jsnum \<Rightarrow> jsnum" where
  "countHeadingCells [] headingColumns = headingColumns"
| "countHeadingCells (th # rest) headingColumns =
     (if node_name th = Some ''th''
      then countHeadingCells rest (js_add headingColumns (colspan_of th))
      else headingColumns)"

definition is_cell :: "view_node \<Rightarrow> bool" where
  "is_cell child \<longleftrightarrow> node_name child = Some ''th'' \<or> node_name child = Some ''td''"

definition scanRowForHeadingColumns :: "view_node \<Rightarrow> js_error + jsnum" where
  "scanRowForHeadingColumns tr =
     (case getChildren tr of
        Inl e \<Rightarrow> Inl e
      | Inr cs \<Rightarrow> Inr (countHeadingCells (filter is_cell cs) (Num 0)))"

text \<open>
  The state of the loops of \<^verbatim>\<open>scanTable\<close>: the two counters of \<^verbatim>\<open>tableMeta\<close>, the
  arrays \<^verbatim>\<open>headRows\<close> and \<^verbatim>\<open>bodyRows\<close>, and \<^verbatim>\<open>firstTheadElement\<close>. The view tree is
  read-only and a node sits at one place in it, so the identity of a child of the table is
  its index among the table's children: \<^verbatim>\<open>firstTheadElement\<close> holds that index, and
  \<^verbatim>\<open>tr.parent === firstTheadElement\<close> compares the index of the section being walked
  (\<^verbatim>\<open>tr.parent\<close> is that section) with it.
\<close>

record scan_state =
  tm_headingRows :: int
  tm_headingColumns :: jsnum
  headRows :: "view_node list"
  bodyRows :: "view_node list"
  firstTheadElement :: "nat option"

fun scanSectionRows :: "view_node \<Rightarrow> nat \<Rightarrow> view_node list \<Rightarrow> scan_state \<Rightarrow> js_error + scan_state" where
  "scanSectionRows tableChild idx [] st = Inr st"
| "scanSectionRows tableChild idx (tr # trs) st =
     (if node_name tableChild = Some ''thead'' \<and> firstTheadElement st = Some idx
      then scanSectionRows tableChild idx trs
             (st\<lparr>tm_headingRows := tm_headingRows st + 1, headRows := headRows st @ [tr]\<rparr>)
      else (case scanRowForHeadingColumns tr of
              Inl e \<Rightarrow> Inl e
            | Inr headingCols \<Rightarrow>
                scanSectionRows tableChild idx trs
                  (st\<lparr>bodyRows := bodyRows st @ [tr],
                      tm_headingColumns :=
                        (if js_gt headingCols (tm_headingColumns st) then headingCols
                         else tm_headingColumns st)\<rparr>)))"

definition is_section :: "view_node \<Rightarrow> bool" where
  "is_section tableChild \<longleftrightarrow>
     node_name tableChild = Some ''tbody'' \<or> node_name tableChild = Some ''thead'' \<or>
     node_name tableChild = Some ''tfoot''"

fun scanTableChildren :: "nat \<Rightarrow> view_node list \<Rightarrow> scan_state \<Rightarrow> js_error + scan_state" where
  "scanTableChildren idx [] st = Inr st"
| "scanTableChildren idx (tableChild # rest) st =
     (if is_section tableChild
      then (let st1 = (if node_name tableChild = Some ''thead'' \<and> firstTheadElement st = None
                       then st\<lparr>firstTheadElement := Some idx\<rparr> else st)
            in case getChildren tableChild of
                 Inl e \<Rightarrow> Inl e
               | Inr trs \<Rightarrow>
                   (case scanSectionRows tableChild idx trs st1 of
                      Inl e \<Rightarrow> Inl e
                    | Inr st2 \<Rightarrow> scanTableChildren (Suc idx) rest st2))
      else scanTableChildren (Suc idx) rest st)"

record tableMeta =
  headingRows :: int
  headingColumns :: jsnum
  rows :: "view_node list"

definition scanTable :: "view_node \<Rightarrow> js_error + tableMeta" where
  "scanTable viewTable =
     (case getChildren viewTable of
        Inl e \<Rightarrow> Inl e
      | Inr children \<Rightarrow>
          (case scanTableChildren 0 children
                  \<lparr>tm_headingRows = 0, tm_headingColumns = Num 0, headRows = [], bodyRows = [],
                   firstTheadElement = None\<rparr> of
             Inl e \<Rightarrow> Inl e
           | Inr st \<Rightarrow>
               Inr \<lparr>headingRows = tm_headingRows st, headingColumns = tm_headingColumns st,
                    rows = headRows st @ bodyRows st\<rparr>))"

section \<open>The rows of the sections\<close>

text \<open>
  What the loops walk: the first \<^verbatim>\<open>thead\<close> child of the table and its children, the other
  sections in document order (every \<^verbatim>\<open>thead\<close>, \<^verbatim>\<open>tbody\<close> and \<^verbatim>\<open>tfoot\<close> child but the first
  \<^verbatim>\<open>thead\<close>) and their children. The code takes every child of a section for a row: it
  does not look at the name of a section's child.
\<close>

definition is_thead :: "view_node \<Rightarrow> bool" where
  "is_thead c \<longleftrightarrow> node_name c = Some ''thead''"

fun rows_of :: "view_node \<Rightarrow> view_node list" where
  "rows_of (Element name attrs children) = children"
| "rows_of (Text data) = []"

definition firstTheadRows :: "view_node list \<Rightarrow> view_node list" where
  "firstTheadRows children =
     (case List.find is_thead children of None \<Rightarrow> [] | Some t \<Rightarrow> rows_of t)"

definition otherSections :: "view_node list \<Rightarrow> view_node list" where
  "otherSections children =
     filter is_section
       (takeWhile (\<lambda>c. \<not> is_thead c) children @ tl (dropWhile (\<lambda>c. \<not> is_thead c) children))"

definition otherRows :: "view_node list \<Rightarrow> view_node list" where
  "otherRows children = concat (map rows_of (otherSections children))"





text \<open>The sum of the column-span values of the leading \<^verbatim>\<open>th\<close> cells of a row.\<close>

definition is_th :: "view_node \<Rightarrow> bool" where
  "is_th c \<longleftrightarrow> node_name c = Some ''th''"

definition js_sum :: "jsnum list \<Rightarrow> jsnum" where
  "js_sum xs = foldl js_add (Num 0) xs"

text \<open>
  The magnitude of a parsed column-span, and the rows on which the exact sums of the model
  are the sums of the code: the magnitudes of the column-spans of the leading \<^verbatim>\<open>th\<close> cells
  add up to at most \<open>2 ^ 53\<close>, so every value and every partial sum is an integer that a
  double holds exactly.
\<close>

definition span_magnitude :: "jsnum \<Rightarrow> nat" where
  "span_magnitude x = (case x of Num k \<Rightarrow> nat \<bar>k\<bar> | NaN \<Rightarrow> 0)"

fun safe_row :: "view_node \<Rightarrow> bool" where
  "safe_row (Element name attrs cells) \<longleftrightarrow>
     sum_list (map (\<lambda>th. span_magnitude (colspan_of th)) (takeWhile is_th (filter is_cell cells)))
       \<le> 2 ^ 53"
| "safe_row (Text data) \<longleftrightarrow> True"

text \<open>
  The contributions of a sequence of rows that are numbers (a row whose scan yields
  \<^verbatim>\<open>NaN\<close> has none), and the later \<^verbatim>\<open>thead\<close> children of a table: every \<^verbatim>\<open>thead\<close> after
  the first.
\<close>

definition numericContributions :: "view_node list \<Rightarrow> int list" where
  "numericContributions trs =
     concat (map (\<lambda>tr. case scanRowForHeadingColumns tr of
                          Inr (Num k) \<Rightarrow> [k] | _ \<Rightarrow> []) trs)"

definition laterTheads :: "view_node list \<Rightarrow> view_node list" where
  "laterTheads children = filter is_thead (tl (dropWhile (\<lambda>c. \<not> is_thead c) children))"

text \<open>Auxiliary notions of the proofs about the loops.\<close>

definition trackMax :: "jsnum \<Rightarrow> view_node list \<Rightarrow> jsnum" where
  "trackMax h trs =
     foldl (\<lambda>h tr. case scanRowForHeadingColumns tr of
                      Inl e \<Rightarrow> h
                    | Inr c \<Rightarrow> if js_gt c h then c else h) h trs"

definition secRows :: "view_node list \<Rightarrow> view_node list" where
  "secRows cs = concat (map rows_of (filter is_section cs))"

section \<open>The destination tree and the conversion API\<close>

text \<open>
  The converters write into the model tree through the engine's writer and positions, and
  call back into the dispatcher. The engine is not part of this repository; what the
  converters use of it is modelled as follows. A model node is an object with an identity:
  the store \<open>nodes\<close> maps identities to nodes and \<open>next_id\<close> is the next fresh identity. A
  position is a parent and an offset among its children: offsets count child nodes, and
  the parent is named by its identity where the engine keeps a path from the root. The
  consumption ledger \<open>ledger\<close> records, per view node (named by a reference), whether its
  name may still be consumed: \<^verbatim>\<open>consumable.test\<close> answers \<^verbatim>\<open>true\<close>, \<^verbatim>\<open>false\<close> or
  \<^verbatim>\<open>null\<close> (never registered).
\<close>

type_synonym node_id = nat
type_synonym view_ref = nat

record model_node =
  mname :: string
  mattrs :: "(string \<times> jsnum) list"
  mchildren :: "node_id list"
  mparent :: "node_id option"

record model_position =
  pos_parent :: node_id
  pos_offset :: nat

record conv_state =
  nodes :: "node_id \<Rightarrow> model_node"
  next_id :: node_id
  ledger :: "view_ref \<Rightarrow> bool option"

text \<open>\<^verbatim>\<open>!conversionApi.consumable.test( item, { name: true } )\<close> holds unless the answer is \<^verbatim>\<open>true\<close>.\<close>

definition consumable_test :: "conv_state \<Rightarrow> view_ref \<Rightarrow> bool" where
  "consumable_test s r \<longleftrightarrow> ledger s r = Some True"

definition consumable_consume :: "view_ref \<Rightarrow> conv_state \<Rightarrow> conv_state" where
  "consumable_consume r s =
     (if ledger s r = Some True then s\<lparr>ledger := (ledger s)(r \<mapsto> False)\<rparr> else s)"

text \<open>\<^verbatim>\<open>writer.createElement( name, attributes )\<close>: a new element, with no parent and no child.\<close>

definition createElement :: "string \<Rightarrow> (string \<times> jsnum) list \<Rightarrow> conv_state \<Rightarrow> node_id \<times> conv_state" where
  "createElement name attrs s =
     (next_id s,
      s\<lparr>nodes := (nodes s)(next_id s :=
            \<lparr>mname = name, mattrs = attrs, mchildren = [], mparent = None\<rparr>),
        next_id := Suc (next_id s)\<rparr>)"

text \<open>
  \<^verbatim>\<open>writer.insert( item, position )\<close>, for an item that has no parent yet, which is all the
  converters pass: an element they have just created.
\<close>

definition writer_insert :: "node_id \<Rightarrow> model_position \<Rightarrow> conv_state \<Rightarrow> conv_state" where
  "writer_insert item pos s =
     (let p = pos_parent pos;
          kids = mchildren (nodes s p);
          s1 = s\<lparr>nodes := (nodes s)(p := (nodes s p)
                  \<lparr>mchildren := take (pos_offset pos) kids @ [item] @ drop (pos_offset pos) kids\<rparr>)\<rparr>
      in s1\<lparr>nodes := (nodes s1)(item := (nodes s1 item)\<lparr>mparent := Some p\<rparr>)\<rparr>)"

text \<open>\<^verbatim>\<open>writer.insertElement( name, position )\<close> creates an element and inserts it.\<close>

definition insertElement :: "string \<Rightarrow> model_position \<Rightarrow> conv_state \<Rightarrow> conv_state" where
  "insertElement name pos s =
     (let (element, s1) = createElement name [] s in writer_insert element pos s1)"

text \<open>
  \<^verbatim>\<open>ModelPosition.createAt( node, 'end' )\<close>, \<^verbatim>\<open>ModelPosition.createAt( node )\<close> (offset 0),
  \<^verbatim>\<open>ModelPosition.createBefore( node )\<close> and \<^verbatim>\<open>ModelPosition.createAfter( node )\<close>. The last
  two raise a \<^verbatim>\<open>CKEditorError\<close> on a node that has no parent.
\<close>

definition createAt_end :: "conv_state \<Rightarrow> node_id \<Rightarrow> model_position" where
  "createAt_end s node = \<lparr>pos_parent = node, pos_offset = length (mchildren (nodes s node))\<rparr>"

definition createAt_start :: "node_id \<Rightarrow> model_position" where
  "createAt_start node = \<lparr>pos_parent = node, pos_offset = 0\<rparr>"

definition index_in :: "node_id \<Rightarrow> node_id list \<Rightarrow> nat" where
  "index_in node kids = length (takeWhile (\<lambda>k. k \<noteq> node) kids)"

definition createBefore :: "conv_state \<Rightarrow> node_id \<Rightarrow> js_error + model_position" where
  "createBefore s node =
     (case mparent (nodes s node) of
        None \<Rightarrow> Inl CKEditorError
      | Some p \<Rightarrow> Inr \<lparr>pos_parent = p, pos_offset = index_in node (mchildren (nodes s p))\<rparr>)"

definition createAfter :: "conv_state \<Rightarrow> node_id \<Rightarrow> js_error + model_position" where
  "createAfter s node =
     (case mparent (nodes s node) of
        None \<Rightarrow> Inl CKEditorError
      | Some p \<Rightarrow> Inr \<lparr>pos_parent = p, pos_offset = Suc (index_in node (mchildren (nodes s p)))\<rparr>)"

text \<open>
  The collaborators the converters call back: \<^verbatim>\<open>splitToAllowedParent\<close> answers \<^verbatim>\<open>null\<close>
  (\<open>None\<close>) or an object with a \<^verbatim>\<open>position\<close> and, when an ancestor was split, a
  \<^verbatim>\<open>cursorParent\<close>; \<^verbatim>\<open>convertItem\<close> and \<^verbatim>\<open>convertChildren\<close> convert view nodes at a
  position. They are parameters of the converters: any functions on the state. A
  collaborator that raises is not modelled: what is proved is about calls in which the
  collaborators return.
\<close>

record split_result =
  position :: model_position
  cursorParent :: "node_id option"

record conversionApi =
  splitToAllowedParent :: "node_id \<Rightarrow> model_position \<Rightarrow> conv_state \<Rightarrow> split_result option \<times> conv_state"
  convertItem :: "view_node \<Rightarrow> model_position \<Rightarrow> conv_state \<Rightarrow> conv_state"
  convertChildren :: "view_node \<Rightarrow> model_position \<Rightarrow> conv_state \<Rightarrow> conv_state"

text \<open>
  An object created after a call is distinct from every object created before it, whatever
  the callee did: the state a collaborator returns is taken with an allocator that has not
  gone backwards.
\<close>

definition keep_fresh :: "conv_state \<Rightarrow> conv_state \<Rightarrow> conv_state" where
  "keep_fresh s s' = s'\<lparr>next_id := max (next_id s) (next_id s')\<rparr>"

text \<open>
  Modelled from the spec: \<^verbatim>\<open>createEmptyTableCell\<close> of \<^verbatim>\<open>src/commands/utils.js\<close>, which is
  not among the source files. The specification has the converter "synthesize exactly one
  row and one cell directly": the helper creates one \<^verbatim>\<open>tableCell\<close> element and inserts it
  at the position. What the helper puts inside the cell is not modelled.
\<close>

definition createEmptyTableCell :: "model_position \<Rightarrow> conv_state \<Rightarrow> conv_state" where
  "createEmptyTableCell insertPosition s =
     (let (tableCell, s1) = createElement ''tableCell'' [] s
      in writer_insert tableCell insertPosition s1)"

section \<open>The converters\<close>

text \<open>
  The data of one conversion call: the view item (with its reference in the ledger), the
  cursor and the result range. A converter returns the updated data and state, or the
  error it raised.
\<close>

record conv_data =
  viewItem :: view_node
  viewRef :: view_ref
  modelCursor :: model_position
  modelRange :: "(model_position \<times> model_position) option"

text \<open>Lines 33 to 42: an attribute is set only when its value is truthy.\<close>

definition tableAttributes :: "tableMeta \<Rightarrow> (string \<times> jsnum) list" where
  "tableAttributes meta =
     (let attributes0 = [];
          attributes1 = (if js_truthy (headingColumns meta)
                         then attributes0 @ [(''headingColumns'', headingColumns meta)]
                         else attributes0)
      in if js_truthy (Num (headingRows meta))
         then attributes1 @ [(''headingRows'', Num (headingRows meta))]
         else attributes1)"

text \<open>Line 59: \<^verbatim>\<open>rows.forEach( row => conversionApi.convertItem( row, ModelPosition.createAt( table, 'end' ) ) )\<close>.\<close>

fun convertRows :: "conversionApi \<Rightarrow> node_id \<Rightarrow> view_node list \<Rightarrow> conv_state \<Rightarrow> conv_state" where
  "convertRows api table [] s = s"
| "convertRows api table (row # rest) s =
     convertRows api table rest (keep_fresh s (convertItem api row (createAt_end s table) s))"

text \<open>Lines 57 to 66: the rows of the scan, or one row and one cell for an empty table.\<close>

definition populateTable :: "conversionApi \<Rightarrow> node_id \<Rightarrow> view_node list \<Rightarrow> conv_state \<Rightarrow> conv_state" where
  "populateTable api table rws s =
     (if rws \<noteq> [] then convertRows api table rws s
      else (let (row, s1) = createElement ''tableRow'' [] s;
                s2 = writer_insert row (createAt_end s1 table) s1
            in createEmptyTableCell (createAt_end s2 row) s2))"

definition upcastTable :: "conversionApi \<Rightarrow> conv_data \<Rightarrow> conv_state \<Rightarrow> js_error + (conv_data \<times> conv_state)" where
  "upcastTable api data s =
     (if \<not> consumable_test s (viewRef data) then Inr (data, s)
      else case scanTable (viewItem data) of
        Inl e \<Rightarrow> Inl e
      | Inr meta \<Rightarrow>
          (let (table, s1) = createElement ''table'' (tableAttributes meta) s;
               (splitResult, s2) = splitToAllowedParent api table (modelCursor data) s1
           in case splitResult of
                None \<Rightarrow> Inr (data, keep_fresh s1 s2)
              | Some sr \<Rightarrow>
                  (let s3 = writer_insert table (position sr) (keep_fresh s1 s2);
                       s4 = consumable_consume (viewRef data) s3;
                       s5 = populateTable api table (rows meta) s4
                   in case createBefore s5 table of
                        Inl e \<Rightarrow> Inl e
                      | Inr rangeStart \<Rightarrow>
                          (case createAfter s5 table of
                             Inl e \<Rightarrow> Inl e
                           | Inr rangeEnd \<Rightarrow>
                               (let data1 = data\<lparr>modelRange := Some (rangeStart, rangeEnd)\<rparr>
                                in Inr (case cursorParent sr of
                                          Some cp \<Rightarrow> data1\<lparr>modelCursor := createAt_start cp\<rparr>
                                        | None \<Rightarrow> data1\<lparr>modelCursor := rangeEnd\<rparr>,
                                        s5))))))"

text \<open>Lines 121 to 124: a paragraph for a cell that has no child.\<close>

definition ensureParagraph :: "node_id \<Rightarrow> model_position \<Rightarrow> conv_state \<Rightarrow> conv_state" where
  "ensureParagraph tableCell cursor s =
     (if length (mchildren (nodes s tableCell)) = 0 then insertElement ''paragraph'' cursor s
      else s)"

text \<open>Lines 115 to 119: insert the cell, consume the view cell, convert its children.\<close>

definition convertCellChildren :: "conversionApi \<Rightarrow> conv_data \<Rightarrow> node_id \<Rightarrow> split_result \<Rightarrow> conv_state \<Rightarrow> conv_state" where
  "convertCellChildren api data tableCell sr s =
     (let s3 = writer_insert tableCell (position sr) s;
          s4 = consumable_consume (viewRef data) s3
      in keep_fresh s4 (convertChildren api (viewItem data) (createAt_start tableCell) s4))"

text \<open>
  \<^verbatim>\<open>upcastTableCell( elementName )\<close>: the element name only chooses the event the handler
  listens to (\<^verbatim>\<open>th\<close> or \<^verbatim>\<open>td\<close>); the handler is the same.
\<close>

definition upcastTableCell :: "string \<Rightarrow> conversionApi \<Rightarrow> conv_data \<Rightarrow> conv_state \<Rightarrow> js_error + (conv_data \<times> conv_state)" where
  "upcastTableCell elementName api data s =
     (if \<not> consumable_test s (viewRef data) then Inr (data, s)
      else
        (let (tableCell, s1) = createElement ''tableCell'' [] s;
             (splitResult, s2) = splitToAllowedParent api tableCell (modelCursor data) s1
         in case splitResult of
              None \<Rightarrow> Inr (data, keep_fresh s1 s2)
            | Some sr \<Rightarrow>
                (let s5 = convertCellChildren api data tableCell sr (keep_fresh s1 s2);
                     s6 = ensureParagraph tableCell (createAt_start tableCell) s5
                 in case createBefore s6 tableCell of
                      Inl e \<Rightarrow> Inl e
                    | Inr rangeStart \<Rightarrow>
                        (case createAfter s6 tableCell of
                           Inl e \<Rightarrow> Inl e
                         | Inr rangeEnd \<Rightarrow>
                             Inr (data\<lparr>modelRange := Some (rangeStart, rangeEnd),
                                       modelCursor := rangeEnd\<rparr>, s6)))))"

section \<open>A small destination tree and four dispatchers\<close>

text \<open>
  Concrete inputs on which the converters are run below: a root that holds two
  paragraphs, a ledger in which view item 0 may be consumed, a cursor in the root between
  the paragraphs, and four sets of collaborators. The first accepts the cursor as the
  place to insert, the second refuses every placement, the third answers as after a
  split whose remainder is the second paragraph, and the fourth is the first with a
  \<^verbatim>\<open>convertChildren\<close> that writes one paragraph at the position it is given.
\<close>

definition root_state :: conv_state where
  "root_state =
     \<lparr>nodes = (\<lambda>i. \<lparr>mname = ''$root'', mattrs = [], mchildren = [1, 2], mparent = None\<rparr>)
               (1 := \<lparr>mname = ''paragraph'', mattrs = [], mchildren = [], mparent = Some 0\<rparr>,
                2 := \<lparr>mname = ''paragraph'', mattrs = [], mchildren = [], mparent = Some 0\<rparr>),
      next_id = 3, ledger = [0 \<mapsto> True]\<rparr>"

definition item_data :: "view_node \<Rightarrow> conv_data" where
  "item_data v = \<lparr>viewItem = v, viewRef = 0,
                  modelCursor = \<lparr>pos_parent = 0, pos_offset = 1\<rparr>, modelRange = None\<rparr>"

definition accepting_api :: conversionApi where
  "accepting_api =
     \<lparr>splitToAllowedParent = (\<lambda>node pos s. (Some \<lparr>position = pos, cursorParent = None\<rparr>, s)),
      convertItem = (\<lambda>item pos s. s),
      convertChildren = (\<lambda>item pos s. s)\<rparr>"

definition rejecting_api :: conversionApi where
  "rejecting_api =
     \<lparr>splitToAllowedParent = (\<lambda>node pos s. (None, s)),
      convertItem = (\<lambda>item pos s. s),
      convertChildren = (\<lambda>item pos s. s)\<rparr>"

definition splitting_api :: conversionApi where
  "splitting_api =
     \<lparr>splitToAllowedParent = (\<lambda>node pos s.
         (Some \<lparr>position = \<lparr>pos_parent = 0, pos_offset = 1\<rparr>, cursorParent = Some 2\<rparr>, s)),
      convertItem = (\<lambda>item pos s. s),
      convertChildren = (\<lambda>item pos s. s)\<rparr>"

definition filling_api :: conversionApi where
  "filling_api =
     \<lparr>splitToAllowedParent = (\<lambda>node pos s. (Some \<lparr>position = pos, cursorParent = None\<rparr>, s)),
      convertItem = (\<lambda>item pos s. s),
      convertChildren = (\<lambda>item pos s. insertElement ''paragraph'' pos s)\<rparr>"

section \<open>The scan, loop by loop\<close>

lemma trackMax_Nil [simp]: "trackMax h [] = h"
  by (simp add: trackMax_def)

lemma trackMax_Cons:
  "trackMax h (tr # trs) =
     trackMax (case scanRowForHeadingColumns tr of Inl e \<Rightarrow> h
               | Inr c \<Rightarrow> if js_gt c h then c else h) trs"
  by (simp add: trackMax_def)

lemma trackMax_append: "trackMax h (xs @ ys) = trackMax (trackMax h xs) ys"
  by (simp add: trackMax_def)

lemma scanRow_Inl: "scanRowForHeadingColumns tr = Inl e \<longleftrightarrow> (node_name tr = None \<and> e = TypeError)"
  by (cases tr) (auto simp: scanRowForHeadingColumns_def)

lemma scanSectionRows_head:
  "node_name c = Some ''thead'' \<Longrightarrow> firstTheadElement st = Some idx \<Longrightarrow>
   scanSectionRows c idx trs st =
     Inr (st\<lparr>tm_headingRows := tm_headingRows st + int (length trs),
             headRows := headRows st @ trs\<rparr>)"
  by (induction trs arbitrary: st) auto

lemma scanSectionRows_body:
  "\<not> (node_name c = Some ''thead'' \<and> firstTheadElement st = Some idx) \<Longrightarrow>
   scanSectionRows c idx trs st =
     (if \<exists>r \<in> set trs. node_name r = None then Inl TypeError
      else Inr (st\<lparr>bodyRows := bodyRows st @ trs,
                   tm_headingColumns := trackMax (tm_headingColumns st) trs\<rparr>))"
proof (induction trs arbitrary: st)
  case Nil
  then show ?case by simp
next
  case (Cons tr trs)
  show ?case
  proof (cases "scanRowForHeadingColumns tr")
    case (Inl e)
    then have "node_name tr = None" "e = TypeError" by (simp_all add: scanRow_Inl)
    with Cons.prems Inl show ?thesis by auto
  next
    case (Inr hc)
    then have nm: "node_name tr \<noteq> None"
      by (cases tr) (auto simp: scanRowForHeadingColumns_def)
    let ?st = "st\<lparr>bodyRows := bodyRows st @ [tr],
                    tm_headingColumns := (if js_gt hc (tm_headingColumns st) then hc
                         else tm_headingColumns st)\<rparr>"
    have p: "\<not> (node_name c = Some ''thead'' \<and> firstTheadElement ?st = Some idx)"
      using Cons.prems by simp
    show ?thesis
      using Cons.prems Inr nm Cons.IH [OF p]
      by (auto simp: trackMax_Cons)
  qed
qed


lemma is_section_Element: "is_section c \<Longrightarrow> getChildren c = Inr (rows_of c)"
  by (cases c) (auto simp: is_section_def)

lemma scanTableChildren_seen:
  "firstTheadElement st = Some j \<Longrightarrow> j < idx \<Longrightarrow>
   scanTableChildren idx cs st =
     (if \<exists>r \<in> set (secRows cs). node_name r = None then Inl TypeError
      else Inr (st\<lparr>bodyRows := bodyRows st @ secRows cs,
                   tm_headingColumns := trackMax (tm_headingColumns st) (secRows cs)\<rparr>))"
proof (induction cs arbitrary: idx st)
  case Nil
  then show ?case by (simp add: secRows_def)
next
  case (Cons c cs)
  show ?case
  proof (cases "is_section c")
    case False
    then show ?thesis
      using Cons.prems Cons.IH [of st "Suc idx"] by (auto simp: secRows_def)
  next
    case True
    have body: "\<not> (node_name c = Some ''thead'' \<and> firstTheadElement st = Some idx)"
      using Cons.prems by simp
    let ?st2 = "st\<lparr>bodyRows := bodyRows st @ rows_of c,
                     tm_headingColumns := trackMax (tm_headingColumns st) (rows_of c)\<rparr>"
    have ih: "scanTableChildren (Suc idx) cs ?st2 =
       (if \<exists>r \<in> set (secRows cs). node_name r = None then Inl TypeError
        else Inr (?st2\<lparr>bodyRows := bodyRows ?st2 @ secRows cs,
                   tm_headingColumns := trackMax (tm_headingColumns ?st2) (secRows cs)\<rparr>))"
      using Cons.prems by (intro Cons.IH [of ?st2 "Suc idx"]) simp_all
    have sr: "secRows (c # cs) = rows_of c @ secRows cs"
      using True by (simp add: secRows_def)
    show ?thesis
      using True Cons.prems ih
      by (auto simp: is_section_Element scanSectionRows_body [OF body] sr trackMax_append)
  qed
qed

lemma firstTheadRows_thead: "is_thead c \<Longrightarrow> firstTheadRows (c # cs) = rows_of c"
  by (simp add: firstTheadRows_def)

lemma firstTheadRows_other: "\<not> is_thead c \<Longrightarrow> firstTheadRows (c # cs) = firstTheadRows cs"
  by (simp add: firstTheadRows_def)

lemma otherRows_thead: "is_thead c \<Longrightarrow> otherRows (c # cs) = secRows cs"
  by (simp add: otherRows_def otherSections_def secRows_def)

lemma otherRows_other:
  "\<not> is_thead c \<Longrightarrow>
   otherRows (c # cs) = (if is_section c then rows_of c else []) @ otherRows cs"
  by (simp add: otherRows_def otherSections_def)

lemma scanTableChildren_unseen:
  "firstTheadElement st = None \<Longrightarrow>
   (if \<exists>r \<in> set (otherRows cs). node_name r = None
    then scanTableChildren idx cs st = Inl TypeError
    else \<exists>ft. scanTableChildren idx cs st =
           Inr (st\<lparr>firstTheadElement := ft,
                   tm_headingRows := tm_headingRows st + int (length (firstTheadRows cs)),
                   headRows := headRows st @ firstTheadRows cs,
                   bodyRows := bodyRows st @ otherRows cs,
                   tm_headingColumns := trackMax (tm_headingColumns st) (otherRows cs)\<rparr>))"
proof (induction cs arbitrary: idx st)
  case Nil
  have "st = st\<lparr>firstTheadElement := None\<rparr>" using Nil by simp
  then show ?case
    by (auto simp: otherRows_def otherSections_def firstTheadRows_def intro: exI [of _ None])
next
  case (Cons c cs)
  show ?case
  proof (cases "is_thead c")
    case True
    then have sec: "is_section c" and nm: "node_name c = Some ''thead''"
      by (simp_all add: is_thead_def is_section_def)
    let ?st1 = "st\<lparr>firstTheadElement := Some idx\<rparr>"
    let ?st2 = "?st1\<lparr>tm_headingRows := tm_headingRows ?st1 + int (length (rows_of c)),
                      headRows := headRows ?st1 @ rows_of c\<rparr>"
    have hd: "scanSectionRows c idx (rows_of c) ?st1 = Inr ?st2"
      by (rule scanSectionRows_head [OF nm]) simp
    have rest: "scanTableChildren (Suc idx) cs ?st2 =
       (if \<exists>r \<in> set (secRows cs). node_name r = None then Inl TypeError
        else Inr (?st2\<lparr>bodyRows := bodyRows ?st2 @ secRows cs,
                   tm_headingColumns := trackMax (tm_headingColumns ?st2) (secRows cs)\<rparr>))"
      by (rule scanTableChildren_seen [of _ idx]) simp_all
    show ?thesis
      using True sec nm Cons.prems hd rest
      by (auto simp: is_section_Element firstTheadRows_thead otherRows_thead
               intro!: exI [of _ "Some idx"])
  next
    case False
    then have nm: "node_name c \<noteq> Some ''thead''" by (simp add: is_thead_def)
    show ?thesis
    proof (cases "is_section c")
      case nsec: False
      then show ?thesis
        using False Cons.prems Cons.IH [of st "Suc idx"]
        by (simp add: firstTheadRows_other otherRows_other)
    next
      case sec: True
      have body: "\<not> (node_name c = Some ''thead'' \<and> firstTheadElement st = Some idx)"
        using nm by simp
      let ?st2 = "st\<lparr>bodyRows := bodyRows st @ rows_of c,
                     tm_headingColumns := trackMax (tm_headingColumns st) (rows_of c)\<rparr>"
      have n2: "firstTheadElement ?st2 = None" using Cons.prems by simp
      show ?thesis
        using False sec nm Cons.prems Cons.IH [OF n2, of "Suc idx"]
        by (auto simp: is_section_Element scanSectionRows_body [OF body]
                 firstTheadRows_other otherRows_other trackMax_append split: if_splits)
    qed
  qed
qed


lemma scanTable_char:
  "scanTable (Element name attrs cs) =
     (if \<exists>r \<in> set (otherRows cs). node_name r = None then Inl TypeError
      else Inr \<lparr>headingRows = int (length (firstTheadRows cs)),
                headingColumns = trackMax (Num 0) (otherRows cs),
                rows = firstTheadRows cs @ otherRows cs\<rparr>)"
proof -
  let ?st = "\<lparr>tm_headingRows = 0, tm_headingColumns = Num 0, headRows = [], bodyRows = [],
                   firstTheadElement = None\<rparr>"
  have "firstTheadElement ?st = None" by simp
  from scanTableChildren_unseen [OF this, of cs 0]
  show ?thesis
    by (auto simp: scanTable_def split: if_splits)
qed

lemma trackMax_Max:
  "trackMax (Num h) trs = Num (Max (insert h (set (numericContributions trs))))"
proof (induction trs arbitrary: h)
  case Nil
  then show ?case by (simp add: numericContributions_def)
next
  case (Cons tr trs)
  have fin: "finite (set (numericContributions trs))" by simp
  show ?case
  proof (cases "scanRowForHeadingColumns tr")
    case (Inl e)
    then show ?thesis
      using Cons.IH [of h] by (simp add: trackMax_Cons numericContributions_def)
  next
    case (Inr c)
    show ?thesis
    proof (cases c)
      case NaN
      then show ?thesis
        using Inr Cons.IH [of h] by (simp add: trackMax_Cons numericContributions_def)
    next
      case (Num k)
      have nc: "numericContributions (tr # trs) = k # numericContributions trs"
        using Inr Num by (simp add: numericContributions_def)
      have "trackMax (Num h) (tr # trs) = trackMax (Num (max h k)) trs"
        using Inr Num by (simp add: trackMax_Cons max_def)
      also have "\<dots> = Num (Max (insert (max h k) (set (numericContributions trs))))"
        by (rule Cons.IH)
      also have "Max (insert (max h k) (set (numericContributions trs)))
                 = Max (insert h (insert k (set (numericContributions trs))))"
        by (cases "set (numericContributions trs) = {}") (simp_all add: max.assoc)
      finally show ?thesis by (simp add: nc)
    qed
  qed
qed

lemma countHeadingCells_foldl:
  "countHeadingCells cs acc = foldl js_add acc (map colspan_of (takeWhile is_th cs))"
  by (induction cs arbitrary: acc) (simp_all add: is_th_def)


lemma scanTable_Inr_iff:
  "scanTable (Element name attrs cs) = Inr meta \<longleftrightarrow>
     (\<forall>r \<in> set (otherRows cs). node_name r \<noteq> None) \<and>
     meta = \<lparr>headingRows = int (length (firstTheadRows cs)),
             headingColumns = trackMax (Num 0) (otherRows cs),
             rows = firstTheadRows cs @ otherRows cs\<rparr>"
  by (auto simp: scanTable_char)










section \<open>Heading columns, spans and attributes\<close>

lemma scanRow_Element:
  "scanRowForHeadingColumns (Element name attrs cells) =
     Inr (js_sum (map colspan_of (takeWhile is_th (filter is_cell cells))))"
  by (simp add: scanRowForHeadingColumns_def countHeadingCells_foldl js_sum_def)

lemma headingColumns_Max:
  assumes "scanTable (Element name attrs children) = Inr meta"
  shows "headingColumns meta = Num (Max (insert 0 (set (numericContributions (otherRows children)))))"
  using assms by (simp add: scanTable_Inr_iff trackMax_Max)

lemma foldl_js_add_Num:
  "foldl js_add (Num a) (map Num ks) = Num (a + sum_list ks)"
  by (induction ks arbitrary: a) simp_all

lemma js_sum_Num: "js_sum (map Num ks) = Num (sum_list ks)"
  by (simp add: js_sum_def foldl_js_add_Num)

lemma abs_sum_list_le: "\<bar>sum_list ks\<bar> \<le> int (sum_list (map (\<lambda>k. nat \<bar>k\<bar>) ks))"
  by (induction ks) auto

lemma span_magnitudes_Num:
  assumes "map colspan_of ths = map Num ks"
  shows "sum_list (map (\<lambda>th. span_magnitude (colspan_of th)) ths) =
         sum_list (map (\<lambda>k. nat \<bar>k\<bar>) ks)"
proof -
  have "map (\<lambda>th. span_magnitude (colspan_of th)) ths = map span_magnitude (map colspan_of ths)"
    by simp
  also have "\<dots> = map (\<lambda>k. nat \<bar>k\<bar>) ks"
    unfolding assms by (simp add: span_magnitude_def)
  finally show ?thesis by simp
qed

text \<open>
  C2, as amended. On a row element whose leading \<^verbatim>\<open>th\<close> cells have column-spans with
  magnitudes that add up to at most \<open>2 ^ 53\<close>, the contribution of the row is the sum of
  the parsed \<^verbatim>\<open>colspan\<close> values of the longest run of \<^verbatim>\<open>th\<close> cells at the front of its
  \<^verbatim>\<open>th\<close>/\<^verbatim>\<open>td\<close> children (children that are neither are filtered out first): \<^verbatim>\<open>NaN\<close> if one
  of the values is, and their sum as integers otherwise, itself within the bound. The scan
  stops at the first cell that is not a \<^verbatim>\<open>th\<close>, so a row whose first cell is not a \<^verbatim>\<open>th\<close>
  contributes 0. Where all the body rows are within the bound, the table's
  \<open>headingColumns\<close> is the greatest of 0 and the contributions of the body rows that are
  numbers: the running maximum starts at 0 and a \<^verbatim>\<open>NaN\<close> contribution never replaces it.
\<close>

theorem scanTable_headingColumns:
  "(safe_row (Element name attrs cells) \<longrightarrow>
      scanRowForHeadingColumns (Element name attrs cells) =
        Inr (js_sum (map colspan_of (takeWhile is_th (filter is_cell cells)))) \<and>
      (\<forall>ks. map colspan_of (takeWhile is_th (filter is_cell cells)) = map Num ks \<longrightarrow>
         scanRowForHeadingColumns (Element name attrs cells) = Inr (Num (sum_list ks)) \<and>
         \<bar>sum_list ks\<bar> \<le> 2 ^ 53)) \<and>
   ((\<forall>c rest. filter is_cell cells = c # rest \<longrightarrow> \<not> is_th c) \<longrightarrow>
      scanRowForHeadingColumns (Element name attrs cells) = Inr (Num 0)) \<and>
   ((\<forall>r \<in> set (otherRows children). safe_row r) \<longrightarrow>
      (\<forall>meta. scanTable (Element tname tattrs children) = Inr meta \<longrightarrow>
         headingColumns meta =
           Num (Max (insert 0 (set (numericContributions (otherRows children)))))))"
proof (intro conjI allI impI)
  show "scanRowForHeadingColumns (Element name attrs cells) =
     Inr (js_sum (map colspan_of (takeWhile is_th (filter is_cell cells))))"
    by (rule scanRow_Element)
next
  fix ks
  assume safe: "safe_row (Element name attrs cells)"
    and nums: "map colspan_of (takeWhile is_th (filter is_cell cells)) = map Num ks"
  show "scanRowForHeadingColumns (Element name attrs cells) = Inr (Num (sum_list ks))"
    by (simp add: scanRow_Element nums js_sum_Num)
  from safe have "sum_list (map (\<lambda>k. nat \<bar>k\<bar>) ks) \<le> 2 ^ 53"
    by (simp add: span_magnitudes_Num [OF nums])
  then have "int (sum_list (map (\<lambda>k. nat \<bar>k\<bar>) ks)) \<le> 2 ^ 53"
    by (metis of_nat_le_iff of_nat_numeral of_nat_power)
  with abs_sum_list_le [of ks] show "\<bar>sum_list ks\<bar> \<le> 2 ^ 53"
    by (rule order_trans)
next
  assume first: "\<forall>c rest. filter is_cell cells = c # rest \<longrightarrow> \<not> is_th c"
  have "takeWhile is_th (filter is_cell cells) = []"
  proof (cases "filter is_cell cells")
    case Nil
    then show ?thesis by simp
  next
    case (Cons c rest)
    with first have "\<not> is_th c" by blast
    with Cons show ?thesis by simp
  qed
  then show "scanRowForHeadingColumns (Element name attrs cells) = Inr (Num 0)"
    by (simp add: scanRow_Element js_sum_def)
next
  fix meta
  assume "scanTable (Element tname tattrs children) = Inr meta"
  then show "headingColumns meta =
        Num (Max (insert 0 (set (numericContributions (otherRows children)))))"
    by (rule headingColumns_Max)
qed

lemmas parse_defs = colspan_of_def parseInt_def StrWhiteSpaceChar_def radix_digit_def
  digit_of_def digits_value_def

lemmas scan_defs = scanTable_def is_section_def scanRowForHeadingColumns_def is_cell_def

text \<open>
  Scenario B of the specification: \<^verbatim>\<open><th colspan="2">\<close>, \<^verbatim>\<open><th>\<close>, \<^verbatim>\<open><td>\<close> contributes
  3 = 2 + 1; a row that starts with a \<^verbatim>\<open>td\<close> contributes 0; and a \<^verbatim>\<open>tbody\<close> with rows that
  contribute 3 and 1 gives 3 heading columns.
\<close>

theorem scanTable_headingColumns_witness:
  "scanRowForHeadingColumns
     (Element ''tr'' [] [Element ''th'' [(''colspan'', ''2'')] [Text ''A''],
                         Element ''th'' [] [Text ''B''],
                         Element ''td'' [] [Text ''C'']]) = Inr (Num 3) \<and>
   scanRowForHeadingColumns
     (Element ''tr'' [] [Text '' '', Element ''td'' [] [], Element ''th'' [] []]) = Inr (Num 0) \<and>
   (\<exists>meta. scanTable (Element ''table'' []
       [Element ''tbody'' []
          [Element ''tr'' [] [Element ''th'' [(''colspan'', ''2'')] [Text ''A''],
                              Element ''th'' [] [Text ''B''],
                              Element ''td'' [] [Text ''C'']],
           Element ''tr'' [] [Element ''th'' [] [], Element ''td'' [] []]]]) = Inr meta \<and>
      headingColumns meta = Num 3)"
proof -
  let ?cellsB = "[Element ''th'' [(''colspan'', ''2'')] [Text ''A''],
                  Element ''th'' [] [Text ''B''],
                  Element ''td'' [] [Text ''C'']]"
  let ?rowB = "Element ''tr'' [] ?cellsB"
  let ?row1 = "Element ''tr'' [] [Element ''th'' [] [], Element ''td'' [] []]"
  let ?cs = "[Element ''tbody'' [] [?rowB, ?row1]]"
  have o: "otherRows ?cs = [?rowB, ?row1]"
    by (simp add: otherRows_def otherSections_def is_thead_def is_section_def)
  have spans: "map colspan_of (takeWhile is_th (filter is_cell ?cellsB)) = map Num [2, 1]"
    by (simp add: is_cell_def is_th_def parse_defs)
  have safeB: "safe_row ?rowB"
    by (simp add: is_cell_def is_th_def parse_defs span_magnitude_def)
  have safe1: "safe_row ?row1"
    by (simp add: is_cell_def is_th_def parse_defs span_magnitude_def)
  have safe: "\<forall>r \<in> set (otherRows ?cs). safe_row r"
    unfolding o using safeB safe1 by simp
  note inst = scanTable_headingColumns
    [where name = "''tr''" and attrs = "[]" and cells = ?cellsB and tname = "''table''"
       and tattrs = "[]" and children = ?cs]
  note inst2 = scanTable_headingColumns
    [where name = "''tr''" and attrs = "[]"
       and cells = "[Text '' '', Element ''td'' [] [], Element ''th'' [] []]"
       and tname = "''table''" and tattrs = "[]" and children = "[]"]
  from inst have "safe_row ?rowB \<longrightarrow>
      scanRowForHeadingColumns ?rowB =
        Inr (js_sum (map colspan_of (takeWhile is_th (filter is_cell ?cellsB)))) \<and>
      (\<forall>ks. map colspan_of (takeWhile is_th (filter is_cell ?cellsB)) = map Num ks \<longrightarrow>
         scanRowForHeadingColumns ?rowB = Inr (Num (sum_list ks)) \<and>
         \<bar>sum_list ks\<bar> \<le> 2 ^ 53)"
    by (rule conjunct1)
  with safeB spans have "scanRowForHeadingColumns ?rowB = Inr (Num (sum_list [2, 1]))"
    by blast
  then have a: "scanRowForHeadingColumns ?rowB = Inr (Num 3)"
    by simp
  have b: "scanRowForHeadingColumns
     (Element ''tr'' [] [Text '' '', Element ''td'' [] [], Element ''th'' [] []]) = Inr (Num 0)"
    using inst2 by (simp add: is_cell_def is_th_def js_sum_def)
  have c1: "scanRowForHeadingColumns ?row1 = Inr (Num 1)"
    by (simp add: scan_defs parse_defs)
  obtain meta where m: "scanTable (Element ''table'' [] ?cs) = Inr meta"
    by (simp add: scan_defs parse_defs)
  have "numericContributions (otherRows ?cs) = [3, 1]"
    unfolding o by (simp add: numericContributions_def a c1)
  with inst safe m have "headingColumns meta = Num 3" by simp
  with a b m show ?thesis by blast
qed

text \<open>
  A body row whose only cell is \<^verbatim>\<open><th colspan="-3">\<close> contributes \<open>- 3\<close>, the maximum over
  the body rows of its table is \<open>- 3\<close>, yet the table's \<open>headingColumns\<close> is 0.
\<close>

theorem scanTable_headingColumns_counterexample:
  "scanRowForHeadingColumns (Element ''tr'' [] [Element ''th'' [(''colspan'', ''-3'')] []])
     = Inr (Num (- 3)) \<and>
   scanTable (Element ''table'' []
       [Element ''tbody'' [] [Element ''tr'' [] [Element ''th'' [(''colspan'', ''-3'')] []]]])
     = Inr \<lparr>headingRows = 0, headingColumns = Num 0,
            rows = [Element ''tr'' [] [Element ''th'' [(''colspan'', ''-3'')] []]]\<rparr>"
  by (simp add: scan_defs parse_defs)

lemma headingColumns_nonneg:
  assumes "scanTable viewTable = Inr meta"
  shows "\<exists>k. 0 \<le> k \<and> headingColumns meta = Num k"
proof (cases viewTable)
  case (Element name attrs children)
  with assms have "headingColumns meta =
      Num (Max (insert 0 (set (numericContributions (otherRows children)))))"
    by (simp add: headingColumns_Max)
  moreover have "0 \<le> Max (insert 0 (set (numericContributions (otherRows children))))"
    by (rule Max_ge) simp_all
  ultimately show ?thesis by blast
next
  case (Text data)
  with assms show ?thesis by (simp add: scanTable_def)
qed


text \<open>
  C3, as amended. A \<^verbatim>\<open>th\<close> cell whose \<^verbatim>\<open>colspan\<close> attribute is missing or the empty string
  counts for 1. Any other string is parsed as it is, with no validation. The scan of a row
  element never throws, whatever the \<^verbatim>\<open>colspan\<close> strings of its cells, and the
  \<open>headingColumns\<close> that the scan of a table returns is always a number, and not negative.
\<close>

theorem colspan_missing_is_one:
  "(getAttribute th ''colspan'' = None \<or> getAttribute th ''colspan'' = Some [] \<longrightarrow>
      colspan_of th = Num 1) \<and>
   (\<forall>v. getAttribute th ''colspan'' = Some v \<longrightarrow> v \<noteq> [] \<longrightarrow> colspan_of th = parseInt v) \<and>
   (\<exists>c. scanRowForHeadingColumns (Element name attrs cells) = Inr c) \<and>
   (\<forall>meta. scanTable viewTable = Inr meta \<longrightarrow> (\<exists>k. 0 \<le> k \<and> headingColumns meta = Num k))"
proof (intro conjI allI impI)
  assume "getAttribute th ''colspan'' = None \<or> getAttribute th ''colspan'' = Some []"
  then have "colspan_of th = parseInt ''1''"
    by (auto simp: colspan_of_def)
  also have "parseInt ''1'' = Num 1"
    by (simp add: parseInt_def StrWhiteSpaceChar_def radix_digit_def digit_of_def
          digits_value_def)
  finally show "colspan_of th = Num 1" .
next
  fix v
  assume "getAttribute th ''colspan'' = Some v" and "v \<noteq> []"
  then show "colspan_of th = parseInt v"
    by (simp add: colspan_of_def)
next
  show "\<exists>c. scanRowForHeadingColumns (Element name attrs cells) = Inr c"
    by (simp add: scanRowForHeadingColumns_def)
next
  fix meta
  assume "scanTable viewTable = Inr meta"
  then show "\<exists>k. 0 \<le> k \<and> headingColumns meta = Num k"
    by (rule headingColumns_nonneg)
qed

theorem colspan_missing_is_one_witness:
  "colspan_of (Element ''th'' [(''rowspan'', ''2'')] []) = Num 1 \<and>
   colspan_of (Element ''th'' [(''colspan'', [])] []) = Num 1 \<and>
   (\<exists>meta. scanTable (Element ''table'' []
       [Element ''tbody'' [] [Element ''tr'' [] [Element ''th'' [(''colspan'', ''abc'')] []]]])
      = Inr meta \<and> headingColumns meta = Num 0)"
proof -
  have a: "colspan_of (Element ''th'' [(''rowspan'', ''2'')] []) = Num 1"
    using colspan_missing_is_one [of "Element ''th'' [(''rowspan'', ''2'')] []"]
    by simp
  have b: "colspan_of (Element ''th'' [(''colspan'', [])] []) = Num 1"
    using colspan_missing_is_one [of "Element ''th'' [(''colspan'', [])] []"]
    by simp
  let ?t = "Element ''table'' []
       [Element ''tbody'' [] [Element ''tr'' [] [Element ''th'' [(''colspan'', ''abc'')] []]]]"
  have m: "scanTable ?t = Inr \<lparr>headingRows = 0, headingColumns = Num 0,
      rows = [Element ''tr'' [] [Element ''th'' [(''colspan'', ''abc'')] []]]\<rparr>"
    by (simp add: scan_defs parse_defs)
  from a b m show ?thesis by simp
qed

text \<open>
  The column-span is not 1 for \<^verbatim>\<open>colspan="0"\<close>, \<^verbatim>\<open>colspan="-3"\<close> and \<^verbatim>\<open>colspan="abc"\<close>: the
  strings are parsed as they are, to 0, to \<open>- 3\<close> and to \<^verbatim>\<open>NaN\<close>, and the row with the last
  cell contributes \<^verbatim>\<open>NaN\<close>.
\<close>

theorem colspan_missing_is_one_counterexample:
  "colspan_of (Element ''th'' [(''colspan'', ''0'')] []) = Num 0 \<and>
   colspan_of (Element ''th'' [(''colspan'', ''-3'')] []) = Num (- 3) \<and>
   colspan_of (Element ''th'' [(''colspan'', ''abc'')] []) = NaN \<and>
   scanRowForHeadingColumns (Element ''tr'' [] [Element ''th'' [(''colspan'', ''abc'')] []])
     = Inr NaN"
  by (simp add: scan_defs parse_defs)

lemma laterTheads_subset: "set (laterTheads cs) \<subseteq> set (otherSections cs)"
  by (auto simp: laterTheads_def otherSections_def is_thead_def is_section_def)

lemma rows_of_otherRows:
  "t \<in> set (otherSections cs) \<Longrightarrow> r \<in> set (rows_of t) \<Longrightarrow> r \<in> set (otherRows cs)"
  by (auto simp: otherRows_def)

lemma numericContributions_mem:
  "r \<in> set trs \<Longrightarrow> scanRowForHeadingColumns r = Inr (Num k) \<Longrightarrow>
   k \<in> set (numericContributions trs)"
  by (force simp: numericContributions_def)

text \<open>
  C4. Only the first \<^verbatim>\<open>thead\<close> child is the header section: \<open>headingRows\<close> is the number of
  its rows and they open \<open>rows\<close>. The rows of every later \<^verbatim>\<open>thead\<close> are body rows: they
  are among the rows that follow, and they are scanned for column headings, so
  \<open>headingColumns\<close> is at least the contribution of each of them.
\<close>

theorem scanTable_first_thead_only:
  assumes "scanTable (Element name attrs children) = Inr meta"
  shows "headingRows meta = int (length (firstTheadRows children)) \<and>
         take (length (firstTheadRows children)) (rows meta) = firstTheadRows children \<and>
         drop (length (firstTheadRows children)) (rows meta) = otherRows children \<and>
         (\<forall>t \<in> set (laterTheads children). \<forall>r \<in> set (rows_of t).
            r \<in> set (otherRows children) \<and>
            (\<forall>k. scanRowForHeadingColumns r = Inr (Num k) \<longrightarrow>
                 (\<exists>h. headingColumns meta = Num h \<and> k \<le> h)))"
proof -
  from assms have hr: "headingRows meta = int (length (firstTheadRows children))"
    and rw: "rows meta = firstTheadRows children @ otherRows children"
    by (simp_all add: scanTable_Inr_iff)
  let ?M = "Max (insert 0 (set (numericContributions (otherRows children))))"
  from assms have hc: "headingColumns meta = Num ?M"
    by (rule headingColumns_Max)
  have later: "r \<in> set (otherRows children) \<and>
            (\<forall>k. scanRowForHeadingColumns r = Inr (Num k) \<longrightarrow>
                 (\<exists>h. headingColumns meta = Num h \<and> k \<le> h))"
    if t: "t \<in> set (laterTheads children)" and r: "r \<in> set (rows_of t)" for t r
  proof -
    from t laterTheads_subset have "t \<in> set (otherSections children)" by blast
    then have mem: "r \<in> set (otherRows children)" using r by (rule rows_of_otherRows)
    have "k \<le> ?M" if "scanRowForHeadingColumns r = Inr (Num k)" for k
    proof -
      from mem that have "k \<in> set (numericContributions (otherRows children))"
        by (rule numericContributions_mem)
      then show ?thesis by (intro Max_ge) simp_all
    qed
    with mem hc show ?thesis by blast
  qed
  from hr rw later show ?thesis by simp
qed

theorem scanTable_first_thead_only_witness:
  "\<exists>meta. scanTable (Element ''table'' []
       [Element ''thead'' [] [Element ''tr'' [] [Element ''th'' [] [Text ''a'']]],
        Element ''thead'' [] [Element ''tr'' [] [Element ''th'' [(''colspan'', ''2'')] []]],
        Element ''tbody'' [] [Element ''tr'' [] [Element ''td'' [] []]]]) = Inr meta \<and>
     headingRows meta = 1 \<and>
     take 1 (rows meta) = [Element ''tr'' [] [Element ''th'' [] [Text ''a'']]] \<and>
     drop 1 (rows meta) = [Element ''tr'' [] [Element ''th'' [(''colspan'', ''2'')] []],
                           Element ''tr'' [] [Element ''td'' [] []]] \<and>
     (\<exists>h. headingColumns meta = Num h \<and> 2 \<le> h)"
proof -
  let ?rB = "Element ''tr'' [] [Element ''th'' [(''colspan'', ''2'')] []]"
  let ?tB = "Element ''thead'' [] [?rB]"
  let ?cs = "[Element ''thead'' [] [Element ''tr'' [] [Element ''th'' [] [Text ''a'']]],
        ?tB, Element ''tbody'' [] [Element ''tr'' [] [Element ''td'' [] []]]]"
  obtain meta where m: "scanTable (Element ''table'' [] ?cs) = Inr meta"
    by (simp add: scan_defs parse_defs)
  note inst = scanTable_first_thead_only [OF m]
  have f: "firstTheadRows ?cs = [Element ''tr'' [] [Element ''th'' [] [Text ''a'']]]"
    by (simp add: firstTheadRows_def is_thead_def)
  have o: "otherRows ?cs = [?rB, Element ''tr'' [] [Element ''td'' [] []]]"
    by (simp add: otherRows_def otherSections_def is_thead_def is_section_def)
  have l: "?tB \<in> set (laterTheads ?cs)"
    by (simp add: laterTheads_def is_thead_def)
  have c: "scanRowForHeadingColumns ?rB = Inr (Num 2)"
    by (simp add: scan_defs parse_defs)
  from inst l c have "\<exists>h. headingColumns meta = Num h \<and> 2 \<le> h"
    by (metis rows_of.simps(1) list.set_intros(1))
  with inst m show ?thesis by (simp add: f o)
qed


section \<open>The converters, step by step\<close>

lemma createElement_simps [simp]:
  "fst (createElement name attrs s) = next_id s"
  "nodes (snd (createElement name attrs s)) =
     (nodes s)(next_id s := \<lparr>mname = name, mattrs = attrs, mchildren = [], mparent = None\<rparr>)"
  "next_id (snd (createElement name attrs s)) = Suc (next_id s)"
  "ledger (snd (createElement name attrs s)) = ledger s"
  by (simp_all add: createElement_def)

lemma createElement_eq:
  "createElement name attrs s = (n, s1) \<Longrightarrow>
   n = next_id s \<and>
   nodes s1 = (nodes s)(next_id s := \<lparr>mname = name, mattrs = attrs, mchildren = [], mparent = None\<rparr>) \<and>
   next_id s1 = Suc (next_id s) \<and> ledger s1 = ledger s"
  by (auto simp: createElement_def)

lemma keep_fresh_simps [simp]:
  "nodes (keep_fresh s s') = nodes s'"
  "ledger (keep_fresh s s') = ledger s'"
  "next_id (keep_fresh s s') = max (next_id s) (next_id s')"
  by (simp_all add: keep_fresh_def)

lemma keep_fresh_same [simp]: "keep_fresh s s = s"
  by (simp add: keep_fresh_def)

lemma consumable_consume_simps [simp]:
  "nodes (consumable_consume r s) = nodes s"
  "next_id (consumable_consume r s) = next_id s"
  by (simp_all add: consumable_consume_def)

lemma writer_insert_simps [simp]:
  "next_id (writer_insert item pos s) = next_id s"
  "ledger (writer_insert item pos s) = ledger s"
  by (simp_all add: writer_insert_def Let_def)

text \<open>
  C5. When \<^verbatim>\<open>splitToAllowedParent\<close> answers \<^verbatim>\<open>null\<close>, the table converter returns normally,
  with the conversion data as it was and the state that the collaborator left: nothing is
  inserted and nothing is consumed. All the converter did before the call is to create
  the table element, which has no parent: the ledger and every other node are as before
  the call, so where the collaborator leaves the state alone the item is still
  consumable and every node that existed has its children.
\<close>

theorem upcastTable_placement_impossible:
  assumes "consumable_test s (viewRef data)"
      and "scanTable (viewItem data) = Inr meta"
      and "createElement ''table'' (tableAttributes meta) s = (table, s1)"
      and "splitToAllowedParent api table (modelCursor data) s1 = (None, s2)"
  shows "upcastTable api data s = Inr (data, keep_fresh s1 s2) \<and>
         ledger s1 = ledger s \<and>
         (\<forall>n. n \<noteq> table \<longrightarrow> nodes s1 n = nodes s n) \<and>
         mparent (nodes s1 table) = None \<and>
         (s2 = s1 \<longrightarrow> upcastTable api data s = Inr (data, s1) \<and>
                      consumable_test s1 (viewRef data) \<and>
                      (\<forall>n. n \<noteq> table \<longrightarrow> mchildren (nodes s1 n) = mchildren (nodes s n)))"
proof -
  have run: "upcastTable api data s = Inr (data, keep_fresh s1 s2)"
    using assms by (simp add: upcastTable_def)
  from createElement_eq [OF assms(3)]
  have t: "table = next_id s" and l: "ledger s1 = ledger s"
    and n: "nodes s1 = (nodes s)(next_id s :=
        \<lparr>mname = ''table'', mattrs = tableAttributes meta, mchildren = [], mparent = None\<rparr>)"
    by simp_all
  from assms(1) l have c: "consumable_test s1 (viewRef data)"
    by (simp add: consumable_test_def)
  from run t l n c show ?thesis by simp
qed

text \<open>The cell converter gives up in the same way (lines 105 to 113).\<close>

lemma upcastTableCell_placement_impossible:
  assumes "consumable_test s (viewRef data)"
      and "createElement ''tableCell'' [] s = (tableCell, s1)"
      and "splitToAllowedParent api tableCell (modelCursor data) s1 = (None, s2)"
  shows "upcastTableCell elementName api data s = Inr (data, keep_fresh s1 s2)"
  using assms by (simp add: upcastTableCell_def)

lemma upcastTable_converted:
  assumes "consumable_test s (viewRef data)"
      and "scanTable (viewItem data) = Inr meta"
      and "createElement ''table'' (tableAttributes meta) s = (table, s1)"
      and "splitToAllowedParent api table (modelCursor data) s1 = (Some sr, s2)"
      and "s5 = populateTable api table (rows meta)
                  (consumable_consume (viewRef data)
                     (writer_insert table (position sr) (keep_fresh s1 s2)))"
  shows "upcastTable api data s =
           (case createBefore s5 table of
              Inl e \<Rightarrow> Inl e
            | Inr rangeStart \<Rightarrow>
                (case createAfter s5 table of
                   Inl e \<Rightarrow> Inl e
                 | Inr rangeEnd \<Rightarrow>
                     Inr (data\<lparr>modelRange := Some (rangeStart, rangeEnd),
                               modelCursor := (case cursorParent sr of
                                                 Some cp \<Rightarrow> createAt_start cp
                                               | None \<Rightarrow> rangeEnd)\<rparr>, s5)))"
  using assms
  by (simp add: upcastTable_def Let_def split: sum.splits option.splits)

lemma writer_insert_attrs [simp]:
  "mattrs (nodes (writer_insert item pos s) n) = mattrs (nodes s n)"
  "mname (nodes (writer_insert item pos s) n) = mname (nodes s n)"
  by (simp_all add: writer_insert_def Let_def)




text \<open>
  C9. After a conversion that went through, the result range runs from before the table to
  after it, both taken in the final tree, and the cursor is the start of
  \<^verbatim>\<open>cursorParent\<close> when \<^verbatim>\<open>splitToAllowedParent\<close> gave one, and the end of the range
  otherwise.
\<close>

theorem upcastTable_cursor:
  assumes "consumable_test s (viewRef data)"
      and "scanTable (viewItem data) = Inr meta"
      and "createElement ''table'' (tableAttributes meta) s = (table, s1)"
      and "splitToAllowedParent api table (modelCursor data) s1 = (Some sr, s2)"
      and "upcastTable api data s = Inr (data', s')"
  shows "\<exists>rangeStart rangeEnd.
           createBefore s' table = Inr rangeStart \<and> createAfter s' table = Inr rangeEnd \<and>
           modelRange data' = Some (rangeStart, rangeEnd) \<and>
           modelCursor data' = (case cursorParent sr of
                                  Some cp \<Rightarrow> \<lparr>pos_parent = cp, pos_offset = 0\<rparr>
                                | None \<Rightarrow> rangeEnd)"
proof -
  define s5 where "s5 = populateTable api table (rows meta)
                  (consumable_consume (viewRef data)
                     (writer_insert table (position sr) (keep_fresh s1 s2)))"
  note run = upcastTable_converted [OF assms(1-4) s5_def]
  from assms(5) run obtain rangeStart where b: "createBefore s5 table = Inr rangeStart"
    by (cases "createBefore s5 table") simp_all
  from assms(5) run b obtain rangeEnd where a: "createAfter s5 table = Inr rangeEnd"
    by (cases "createAfter s5 table") simp_all
  from assms(5) run a b have "s' = s5"
    and "data' = data\<lparr>modelRange := Some (rangeStart, rangeEnd),
                       modelCursor := (case cursorParent sr of
                                         Some cp \<Rightarrow> createAt_start cp
                                       | None \<Rightarrow> rangeEnd)\<rparr>"
    by simp_all
  with a b show ?thesis
    by (auto simp: createAt_start_def split: option.splits)
qed

lemma upcastTableCell_converted:
  assumes "consumable_test s (viewRef data)"
      and "createElement ''tableCell'' [] s = (tableCell, s1)"
      and "splitToAllowedParent api tableCell (modelCursor data) s1 = (Some sr, s2)"
      and "s6 = ensureParagraph tableCell (createAt_start tableCell)
                  (convertCellChildren api data tableCell sr (keep_fresh s1 s2))"
  shows "upcastTableCell elementName api data s =
           (case createBefore s6 tableCell of
              Inl e \<Rightarrow> Inl e
            | Inr rangeStart \<Rightarrow>
                (case createAfter s6 tableCell of
                   Inl e \<Rightarrow> Inl e
                 | Inr rangeEnd \<Rightarrow>
                     Inr (data\<lparr>modelRange := Some (rangeStart, rangeEnd),
                               modelCursor := rangeEnd\<rparr>, s6)))"
  using assms
  by (simp add: upcastTableCell_def Let_def split: sum.splits option.splits)

text \<open>
  C10. After a cell conversion that went through, the cursor is the end of the result
  range, the position after the new cell in the final tree, whether
  \<^verbatim>\<open>splitToAllowedParent\<close> gave a \<^verbatim>\<open>cursorParent\<close> or not.
\<close>

theorem upcastTableCell_cursor:
  assumes "consumable_test s (viewRef data)"
      and "createElement ''tableCell'' [] s = (tableCell, s1)"
      and "splitToAllowedParent api tableCell (modelCursor data) s1 = (Some sr, s2)"
      and "upcastTableCell elementName api data s = Inr (data', s')"
  shows "\<exists>rangeStart.
           createBefore s' tableCell = Inr rangeStart \<and>
           createAfter s' tableCell = Inr (modelCursor data') \<and>
           modelRange data' = Some (rangeStart, modelCursor data')"
proof -
  define s6 where "s6 = ensureParagraph tableCell (createAt_start tableCell)
                  (convertCellChildren api data tableCell sr (keep_fresh s1 s2))"
  note run = upcastTableCell_converted [OF assms(1-3) s6_def, of elementName]
  from assms(4) run obtain rangeStart where b: "createBefore s6 tableCell = Inr rangeStart"
    by (cases "createBefore s6 tableCell") simp_all
  from assms(4) run b obtain rangeEnd where a: "createAfter s6 tableCell = Inr rangeEnd"
    by (cases "createAfter s6 tableCell") simp_all
  from assms(4) run a b have "s' = s6"
    and "data' = data\<lparr>modelRange := Some (rangeStart, rangeEnd), modelCursor := rangeEnd\<rparr>"
    by simp_all
  with a b show ?thesis by simp
qed

lemma populateTable_empty:
  assumes "mchildren (nodes s table) = []" and "table < next_id s"
  shows "mchildren (nodes (populateTable api table [] s) table) = [next_id s] \<and>
         mname (nodes (populateTable api table [] s) (next_id s)) = ''tableRow'' \<and>
         mchildren (nodes (populateTable api table [] s) (next_id s)) = [Suc (next_id s)] \<and>
         mname (nodes (populateTable api table [] s) (Suc (next_id s))) = ''tableCell'' \<and>
         mchildren (nodes (populateTable api table [] s) (Suc (next_id s))) = [] \<and>
         mparent (nodes (populateTable api table [] s) table) = mparent (nodes s table) \<and>
         mname (nodes (populateTable api table [] s) table) = mname (nodes s table) \<and>
         mattrs (nodes (populateTable api table [] s) table) = mattrs (nodes s table)"
  using assms
  by (simp add: populateTable_def createElement_def writer_insert_def createAt_end_def
        createEmptyTableCell_def Let_def)

lemma writer_insert_item:
  assumes "pos_parent pos \<noteq> item"
  shows "nodes (writer_insert item pos s) item = (nodes s item)\<lparr>mparent := Some (pos_parent pos)\<rparr>"
  using assms by (simp add: writer_insert_def Let_def)

lemma scanTable_no_rows:
  assumes "scanTable viewTable = Inr meta" and "rows meta = []"
  shows "headingRows meta = 0 \<and> headingColumns meta = Num 0"
proof (cases viewTable)
  case (Element name attrs children)
  with assms have "firstTheadRows children = []" and "otherRows children = []"
    and "headingRows meta = int (length (firstTheadRows children))"
    and "headingColumns meta = trackMax (Num 0) (otherRows children)"
    by (auto simp: scanTable_Inr_iff)
  then show ?thesis by simp
next
  case (Text data)
  with assms show ?thesis by (simp add: scanTable_def)
qed

lemma populateTable_bypass:
  "populateTable (api\<lparr>convertItem := f, convertChildren := g\<rparr>) table [] s =
   populateTable api table [] s"
  by (simp add: populateTable_def)

text \<open>
  C6. When the scan finds no row, both counts are 0, the table element is created with no
  attribute, and a conversion that gets a place for the table (from a collaborator that
  leaves the new element as it was created and gives a position outside it) ends with a
  table that has exactly one child, a \<^verbatim>\<open>tableRow\<close>, whose only child is a \<^verbatim>\<open>tableCell\<close>.
  The row and the cell are written directly: the outcome is the same whatever
  \<^verbatim>\<open>convertItem\<close> and \<^verbatim>\<open>convertChildren\<close> are.
\<close>

theorem upcastTable_empty_table:
  assumes "consumable_test s (viewRef data)"
      and "scanTable (viewItem data) = Inr meta"
      and "rows meta = []"
      and "createElement ''table'' (tableAttributes meta) s = (table, s1)"
      and "splitToAllowedParent api table (modelCursor data) s1 = (Some sr, s2)"
      and "nodes s2 table = nodes s1 table"
      and "pos_parent (position sr) \<noteq> table"
  shows "headingRows meta = 0 \<and> headingColumns meta = Num 0 \<and>
         (\<exists>data' s' row cell.
             upcastTable api data s = Inr (data', s') \<and>
             mname (nodes s' table) = ''table'' \<and> mattrs (nodes s' table) = [] \<and>
             mchildren (nodes s' table) = [row] \<and>
             mname (nodes s' row) = ''tableRow'' \<and> mchildren (nodes s' row) = [cell] \<and>
             mname (nodes s' cell) = ''tableCell'' \<and> mchildren (nodes s' cell) = []) \<and>
         (\<forall>f g. upcastTable (api\<lparr>convertItem := f, convertChildren := g\<rparr>) data s =
                upcastTable api data s)"
proof -
  from assms(2,3) have zero: "headingRows meta = 0 \<and> headingColumns meta = Num 0"
    by (rule scanTable_no_rows)
  then have noattrs: "tableAttributes meta = []"
    by (simp add: tableAttributes_def)
  from createElement_eq [OF assms(4)] noattrs
  have t: "table = next_id s" and n1: "next_id s1 = Suc (next_id s)"
    and node1: "nodes s1 table =
        \<lparr>mname = ''table'', mattrs = [], mchildren = [], mparent = None\<rparr>"
    by simp_all
  define s4 where "s4 = consumable_consume (viewRef data)
                     (writer_insert table (position sr) (keep_fresh s1 s2))"
  define s5 where "s5 = populateTable api table [] s4"
  have node4: "nodes s4 table = \<lparr>mname = ''table'', mattrs = [], mchildren = [],
                                  mparent = Some (pos_parent (position sr))\<rparr>"
    using assms(6,7) node1 by (simp add: s4_def writer_insert_item)
  have fresh: "table < next_id s4"
    using t n1 by (simp add: s4_def)
  have kids: "mchildren (nodes s4 table) = []"
    by (simp add: node4)
  note pop = populateTable_empty [OF kids fresh, of api, folded s5_def]
  from pop node4 have parent5: "mparent (nodes s5 table) = Some (pos_parent (position sr))"
    by simp
  have s5': "s5 = populateTable api table (rows meta)
                  (consumable_consume (viewRef data)
                     (writer_insert table (position sr) (keep_fresh s1 s2)))"
    by (simp add: s5_def s4_def assms(3))
  note run = upcastTable_converted [OF assms(1,2,4,5) s5']
  from run parent5 obtain data' where res: "upcastTable api data s = Inr (data', s5)"
    by (simp add: createBefore_def createAfter_def)
  from pop node4 have shape:
    "mname (nodes s5 table) = ''table'' \<and> mattrs (nodes s5 table) = [] \<and>
     mchildren (nodes s5 table) = [next_id s4] \<and>
     mname (nodes s5 (next_id s4)) = ''tableRow'' \<and>
     mchildren (nodes s5 (next_id s4)) = [Suc (next_id s4)] \<and>
     mname (nodes s5 (Suc (next_id s4))) = ''tableCell'' \<and>
     mchildren (nodes s5 (Suc (next_id s4))) = []"
    by simp
  have bypass: "upcastTable (api\<lparr>convertItem := f, convertChildren := g\<rparr>) data s =
                upcastTable api data s" for f g
    using assms(1-5)
    by (simp add: upcastTable_def populateTable_bypass)
  from zero res shape bypass show ?thesis by blast
qed

lemma ensureParagraph_empty:
  assumes "mchildren (nodes s tableCell) = []" and "tableCell < next_id s"
  shows "mchildren (nodes (ensureParagraph tableCell (createAt_start tableCell) s) tableCell)
           = [next_id s] \<and>
         nodes (ensureParagraph tableCell (createAt_start tableCell) s) (next_id s)
           = \<lparr>mname = ''paragraph'', mattrs = [], mchildren = [], mparent = Some tableCell\<rparr> \<and>
         (\<forall>n. n \<noteq> tableCell \<longrightarrow> n \<noteq> next_id s \<longrightarrow>
            nodes (ensureParagraph tableCell (createAt_start tableCell) s) n = nodes s n)"
  using assms
  by (simp add: ensureParagraph_def insertElement_def createElement_def writer_insert_def
        createAt_start_def Let_def)

lemma ensureParagraph_nonempty:
  "mchildren (nodes s tableCell) \<noteq> [] \<Longrightarrow> ensureParagraph tableCell cursor s = s"
  by (simp add: ensureParagraph_def)

lemma convertCellChildren_next_id:
  "next_id s \<le> next_id (convertCellChildren api data tableCell sr s)"
  by (simp add: convertCellChildren_def Let_def)

text \<open>
  C7. After a cell conversion that went through, the new cell has a child. Where the
  conversion of the children left the cell with no child, the cell holds exactly one
  node, a new \<^verbatim>\<open>paragraph\<close> with no child, and no other node has changed; where it left
  a child, the placeholder step changes nothing. The step runs only on a cell that has no
  child: run again on the final tree, it changes nothing.
\<close>

theorem upcastTableCell_not_empty:
  assumes "consumable_test s (viewRef data)"
      and "createElement ''tableCell'' [] s = (tableCell, s1)"
      and "splitToAllowedParent api tableCell (modelCursor data) s1 = (Some sr, s2)"
      and "s5 = convertCellChildren api data tableCell sr (keep_fresh s1 s2)"
      and "upcastTableCell elementName api data s = Inr (data', s')"
  shows "mchildren (nodes s' tableCell) \<noteq> [] \<and>
         (mchildren (nodes s5 tableCell) = [] \<longrightarrow>
            (\<exists>placeholder. mchildren (nodes s' tableCell) = [placeholder] \<and>
               nodes s' placeholder =
                 \<lparr>mname = ''paragraph'', mattrs = [], mchildren = [], mparent = Some tableCell\<rparr> \<and>
               (\<forall>n. n \<noteq> tableCell \<longrightarrow> n \<noteq> placeholder \<longrightarrow> nodes s' n = nodes s5 n))) \<and>
         (mchildren (nodes s5 tableCell) \<noteq> [] \<longrightarrow> s' = s5) \<and>
         ensureParagraph tableCell (createAt_start tableCell) s' = s'"
proof -
  define s6 where "s6 = ensureParagraph tableCell (createAt_start tableCell) s5"
  have s6': "s6 = ensureParagraph tableCell (createAt_start tableCell)
                  (convertCellChildren api data tableCell sr (keep_fresh s1 s2))"
    by (simp add: s6_def assms(4))
  note run = upcastTableCell_converted [OF assms(1-3) s6', of elementName]
  from assms(5) run have final: "s' = s6"
    by (auto split: sum.splits)
  from createElement_eq [OF assms(2)]
  have "tableCell = next_id s" and "next_id s1 = Suc (next_id s)" by simp_all
  moreover have "next_id (keep_fresh s1 s2) \<le> next_id s5"
    unfolding assms(4) by (rule convertCellChildren_next_id)
  ultimately have fresh: "tableCell < next_id s5" by simp
  show ?thesis
  proof (cases "mchildren (nodes s5 tableCell) = []")
    case True
    note ins = ensureParagraph_empty [OF True fresh, folded s6_def]
    from ins have kids: "mchildren (nodes s6 tableCell) = [next_id s5]" by simp
    then have "ensureParagraph tableCell (createAt_start tableCell) s6 = s6"
      by (simp add: ensureParagraph_nonempty)
    with True ins kids final show ?thesis by auto
  next
    case False
    then have "s6 = s5" by (simp add: s6_def ensureParagraph_nonempty)
    with False final show ?thesis by (simp add: ensureParagraph_nonempty)
  qed
qed

section \<open>The converters on the small tree\<close>

lemmas engine_defs = createElement_def writer_insert_def insertElement_def createAt_end_def
  createAt_start_def index_in_def createBefore_def createAfter_def keep_fresh_def
  createEmptyTableCell_def consumable_test_def consumable_consume_def populateTable_def
  ensureParagraph_def convertCellChildren_def

lemmas fixture_defs = root_state_def item_data_def accepting_api_def
  rejecting_api_def splitting_api_def filling_api_def

lemma empty_table_scan:
  "scanTable (Element ''table'' [] []) = Inr \<lparr>headingRows = 0, headingColumns = Num 0, rows = []\<rparr>"
  by (simp add: scanTable_def)

lemma empty_meta_attributes:
  "tableAttributes \<lparr>headingRows = 0, headingColumns = Num 0, rows = []\<rparr> = []"
  by (simp add: tableAttributes_def)

lemma item_test: "consumable_test root_state (viewRef (item_data v))"
  by (simp add: consumable_test_def root_state_def item_data_def)

lemma new_table:
  "createElement ''table''
     (tableAttributes \<lparr>headingRows = 0, headingColumns = Num 0, rows = []\<rparr>) root_state =
   (3, snd (createElement ''table'' [] root_state))"
  by (simp add: empty_meta_attributes createElement_def root_state_def)

lemma new_cell:
  "createElement ''tableCell'' [] root_state = (3, snd (createElement ''tableCell'' [] root_state))"
  by (simp add: createElement_def root_state_def)

text \<open>
  The refusing dispatcher on an empty table: the converter returns the data unchanged,
  the item is still consumable and the root still has its two paragraphs.
\<close>

theorem upcastTable_placement_impossible_witness:
  "upcastTable rejecting_api (item_data (Element ''table'' [] [])) root_state =
     Inr (item_data (Element ''table'' [] []), snd (createElement ''table'' [] root_state)) \<and>
   consumable_test (snd (createElement ''table'' [] root_state)) 0 \<and>
   mchildren (nodes (snd (createElement ''table'' [] root_state)) 0) = [1, 2]"
proof -
  let ?data = "item_data (Element ''table'' [] [])"
  let ?s1 = "snd (createElement ''table'' [] root_state)"
  have b: "scanTable (viewItem ?data) =
      Inr \<lparr>headingRows = 0, headingColumns = Num 0, rows = []\<rparr>"
    by (simp add: item_data_def empty_table_scan)
  have d: "splitToAllowedParent rejecting_api 3 (modelCursor ?data) ?s1 = (None, ?s1)"
    by (simp add: rejecting_api_def)
  from upcastTable_placement_impossible [OF item_test b new_table d]
  show ?thesis
    by (simp add: item_data_def root_state_def)
qed

text \<open>
  The accepting dispatcher on an empty \<^verbatim>\<open><table></table>\<close>: the new table (node 3) has
  no attribute and holds one row that holds one cell.
\<close>

theorem upcastTable_empty_table_witness:
  "\<exists>data' s' row cell.
     upcastTable accepting_api (item_data (Element ''table'' [] [])) root_state = Inr (data', s') \<and>
     mname (nodes s' 3) = ''table'' \<and> mattrs (nodes s' 3) = [] \<and>
     mchildren (nodes s' 3) = [row] \<and>
     mname (nodes s' row) = ''tableRow'' \<and> mchildren (nodes s' row) = [cell] \<and>
     mname (nodes s' cell) = ''tableCell'' \<and> mchildren (nodes s' cell) = []"
proof -
  let ?data = "item_data (Element ''table'' [] [])"
  let ?meta = "\<lparr>headingRows = 0, headingColumns = Num 0, rows = []\<rparr>"
  let ?s1 = "snd (createElement ''table'' [] root_state)"
  let ?sr = "\<lparr>position = \<lparr>pos_parent = 0, pos_offset = 1\<rparr>, cursorParent = None\<rparr>"
  have b: "scanTable (viewItem ?data) = Inr ?meta"
    by (simp add: item_data_def empty_table_scan)
  have r: "rows ?meta = []" by simp
  have d: "splitToAllowedParent accepting_api 3 (modelCursor ?data) ?s1 = (Some ?sr, ?s1)"
    by (simp add: accepting_api_def item_data_def)
  have f: "nodes ?s1 3 = nodes ?s1 3" by simp
  have p: "pos_parent (position ?sr) \<noteq> 3" by simp
  from upcastTable_empty_table [OF item_test b r new_table d f p]
  show ?thesis by blast
qed

text \<open>
  The table lands between the two paragraphs of the root. With no \<^verbatim>\<open>cursorParent\<close> the
  cursor is the end of the range, after the table; with the second paragraph as
  \<^verbatim>\<open>cursorParent\<close> it is the start of that paragraph.
\<close>

theorem upcastTable_cursor_witness:
  "(\<exists>data' s'. upcastTable accepting_api (item_data (Element ''table'' [] [])) root_state
        = Inr (data', s') \<and>
      modelRange data' = Some (\<lparr>pos_parent = 0, pos_offset = 1\<rparr>, \<lparr>pos_parent = 0, pos_offset = 2\<rparr>) \<and>
      modelCursor data' = \<lparr>pos_parent = 0, pos_offset = 2\<rparr>) \<and>
   (\<exists>data' s'. upcastTable splitting_api (item_data (Element ''table'' [] [])) root_state
        = Inr (data', s') \<and>
      modelRange data' = Some (\<lparr>pos_parent = 0, pos_offset = 1\<rparr>, \<lparr>pos_parent = 0, pos_offset = 2\<rparr>) \<and>
      modelCursor data' = \<lparr>pos_parent = 2, pos_offset = 0\<rparr>)"
proof -
  let ?data = "item_data (Element ''table'' [] [])"
  let ?meta = "\<lparr>headingRows = 0, headingColumns = Num 0, rows = []\<rparr>"
  let ?s1 = "snd (createElement ''table'' [] root_state)"
  let ?T = "\<lparr>nodes =
       (\<lambda>i. \<lparr>mname = ''$root'', mattrs = [], mchildren = [1, 2], mparent = None\<rparr>)
       (1 := \<lparr>mname = ''paragraph'', mattrs = [], mchildren = [], mparent = Some 0\<rparr>,
        2 := \<lparr>mname = ''paragraph'', mattrs = [], mchildren = [], mparent = Some 0\<rparr>,
        0 := \<lparr>mname = ''$root'', mattrs = [], mchildren = [1, 3, 2], mparent = None\<rparr>,
        3 := \<lparr>mname = ''table'', mattrs = [], mchildren = [4], mparent = Some 0\<rparr>,
        4 := \<lparr>mname = ''tableRow'', mattrs = [], mchildren = [5], mparent = Some 3\<rparr>,
        5 := \<lparr>mname = ''tableCell'', mattrs = [], mchildren = [], mparent = Some 4\<rparr>),
       next_id = 6, ledger = [0 \<mapsto> False]\<rparr>"
  have b: "scanTable (viewItem ?data) = Inr ?meta"
    by (simp add: item_data_def empty_table_scan)
  have range: "createBefore ?T 3 = Inr \<lparr>pos_parent = 0, pos_offset = 1\<rparr>"
    "createAfter ?T 3 = Inr \<lparr>pos_parent = 0, pos_offset = 2\<rparr>"
    by (simp_all add: createBefore_def createAfter_def index_in_def)
  have d1: "splitToAllowedParent accepting_api 3 (modelCursor ?data) ?s1 =
      (Some \<lparr>position = \<lparr>pos_parent = 0, pos_offset = 1\<rparr>, cursorParent = None\<rparr>, ?s1)"
    by (simp add: accepting_api_def item_data_def)
  have "\<exists>data1. upcastTable accepting_api ?data root_state = Inr (data1, ?T)"
    by (simp add: upcastTable_def empty_table_scan empty_meta_attributes engine_defs
          fixture_defs Let_def)
  then obtain data1 where e1: "upcastTable accepting_api ?data root_state = Inr (data1, ?T)" ..
  from upcastTable_cursor [OF item_test b new_table d1 e1] range
  have g1: "modelRange data1 = Some (\<lparr>pos_parent = 0, pos_offset = 1\<rparr>, \<lparr>pos_parent = 0, pos_offset = 2\<rparr>) \<and>
      modelCursor data1 = \<lparr>pos_parent = 0, pos_offset = 2\<rparr>"
    by auto
  have d2: "splitToAllowedParent splitting_api 3 (modelCursor ?data) ?s1 =
      (Some \<lparr>position = \<lparr>pos_parent = 0, pos_offset = 1\<rparr>, cursorParent = Some 2\<rparr>, ?s1)"
    by (simp add: splitting_api_def)
  have "\<exists>data2. upcastTable splitting_api ?data root_state = Inr (data2, ?T)"
    by (simp add: upcastTable_def empty_table_scan empty_meta_attributes engine_defs
          fixture_defs Let_def)
  then obtain data2 where e2: "upcastTable splitting_api ?data root_state = Inr (data2, ?T)" ..
  from upcastTable_cursor [OF item_test b new_table d2 e2] range
  have g2: "modelRange data2 = Some (\<lparr>pos_parent = 0, pos_offset = 1\<rparr>, \<lparr>pos_parent = 0, pos_offset = 2\<rparr>) \<and>
      modelCursor data2 = \<lparr>pos_parent = 2, pos_offset = 0\<rparr>"
    by auto
  from e1 g1 e2 g2 show ?thesis by blast
qed

text \<open>
  The same answer of \<^verbatim>\<open>splitToAllowedParent\<close>, with the second paragraph as
  \<^verbatim>\<open>cursorParent\<close>, to the cell converter: the cursor is after the cell all the same.
\<close>

theorem upcastTableCell_cursor_witness:
  "\<exists>data' s'. upcastTableCell ''td'' splitting_api (item_data (Element ''td'' [] [])) root_state
        = Inr (data', s') \<and>
      modelRange data' = Some (\<lparr>pos_parent = 0, pos_offset = 1\<rparr>, \<lparr>pos_parent = 0, pos_offset = 2\<rparr>) \<and>
      modelCursor data' = \<lparr>pos_parent = 0, pos_offset = 2\<rparr>"
proof -
  let ?data = "item_data (Element ''td'' [] [])"
  let ?s1 = "snd (createElement ''tableCell'' [] root_state)"
  let ?T = "\<lparr>nodes =
       (\<lambda>i. \<lparr>mname = ''$root'', mattrs = [], mchildren = [1, 2], mparent = None\<rparr>)
       (1 := \<lparr>mname = ''paragraph'', mattrs = [], mchildren = [], mparent = Some 0\<rparr>,
        2 := \<lparr>mname = ''paragraph'', mattrs = [], mchildren = [], mparent = Some 0\<rparr>,
        0 := \<lparr>mname = ''$root'', mattrs = [], mchildren = [1, 3, 2], mparent = None\<rparr>,
        3 := \<lparr>mname = ''tableCell'', mattrs = [], mchildren = [4], mparent = Some 0\<rparr>,
        4 := \<lparr>mname = ''paragraph'', mattrs = [], mchildren = [], mparent = Some 3\<rparr>),
       next_id = 5, ledger = [0 \<mapsto> False]\<rparr>"
  have range: "createBefore ?T 3 = Inr \<lparr>pos_parent = 0, pos_offset = 1\<rparr>"
    "createAfter ?T 3 = Inr \<lparr>pos_parent = 0, pos_offset = 2\<rparr>"
    by (simp_all add: createBefore_def createAfter_def index_in_def)
  have d: "splitToAllowedParent splitting_api 3 (modelCursor ?data) ?s1 =
      (Some \<lparr>position = \<lparr>pos_parent = 0, pos_offset = 1\<rparr>, cursorParent = Some 2\<rparr>, ?s1)"
    by (simp add: splitting_api_def)
  have "\<exists>data'. upcastTableCell ''td'' splitting_api ?data root_state = Inr (data', ?T)"
    by (simp add: upcastTableCell_def engine_defs fixture_defs Let_def)
  then obtain data' where e: "upcastTableCell ''td'' splitting_api ?data root_state = Inr (data', ?T)" ..
  from upcastTableCell_cursor [OF item_test new_cell d e] range
  have "modelRange data' = Some (\<lparr>pos_parent = 0, pos_offset = 1\<rparr>, \<lparr>pos_parent = 0, pos_offset = 2\<rparr>) \<and>
      modelCursor data' = \<lparr>pos_parent = 0, pos_offset = 2\<rparr>"
    by auto
  with e show ?thesis by blast
qed

text \<open>
  An empty \<^verbatim>\<open><td></td>\<close> gives a cell (node 3) that holds one paragraph with no child.
  Where \<^verbatim>\<open>convertChildren\<close> writes a paragraph into the cell, the final tree is the one
  it left.
\<close>

theorem upcastTableCell_not_empty_witness:
  "(\<exists>data' s' placeholder.
      upcastTableCell ''td'' accepting_api (item_data (Element ''td'' [] [])) root_state
        = Inr (data', s') \<and>
      mchildren (nodes s' 3) = [placeholder] \<and> mname (nodes s' placeholder) = ''paragraph'' \<and>
      mchildren (nodes s' placeholder) = []) \<and>
   (\<exists>data' s'.
      upcastTableCell ''td'' filling_api (item_data (Element ''td'' [] [Element ''p'' [] []]))
          root_state = Inr (data', s') \<and>
      mchildren (nodes s' 3) \<noteq> [] \<and>
      s' = convertCellChildren filling_api (item_data (Element ''td'' [] [Element ''p'' [] []])) 3
             \<lparr>position = \<lparr>pos_parent = 0, pos_offset = 1\<rparr>, cursorParent = None\<rparr>
             (snd (createElement ''tableCell'' [] root_state)))"
proof -
  let ?s1 = "snd (createElement ''tableCell'' [] root_state)"
  let ?sr = "\<lparr>position = \<lparr>pos_parent = 0, pos_offset = 1\<rparr>, cursorParent = None\<rparr>"
  let ?d1 = "item_data (Element ''td'' [] [])"
  let ?d2 = "item_data (Element ''td'' [] [Element ''p'' [] []])"
  have split1: "splitToAllowedParent accepting_api 3 (modelCursor ?d1) ?s1 = (Some ?sr, ?s1)"
    by (simp add: accepting_api_def item_data_def)
  have h1: "convertCellChildren accepting_api ?d1 3 ?sr ?s1 =
      convertCellChildren accepting_api ?d1 3 ?sr (keep_fresh ?s1 ?s1)"
    by simp
  obtain data1 t1 where e1: "upcastTableCell ''td'' accepting_api ?d1 root_state = Inr (data1, t1)"
    by (simp add: upcastTableCell_def engine_defs fixture_defs Let_def)
  have empty: "mchildren (nodes (convertCellChildren accepting_api ?d1 3 ?sr ?s1) 3) = []"
    by (simp add: engine_defs fixture_defs Let_def)
  from upcastTableCell_not_empty [OF item_test new_cell split1 h1 e1] empty
  obtain placeholder where "mchildren (nodes t1 3) = [placeholder]"
    and "nodes t1 placeholder =
           \<lparr>mname = ''paragraph'', mattrs = [], mchildren = [], mparent = Some 3\<rparr>"
    by blast
  then have g1: "mchildren (nodes t1 3) = [placeholder] \<and>
      mname (nodes t1 placeholder) = ''paragraph'' \<and> mchildren (nodes t1 placeholder) = []"
    by simp
  have split2: "splitToAllowedParent filling_api 3 (modelCursor ?d2) ?s1 = (Some ?sr, ?s1)"
    by (simp add: filling_api_def item_data_def)
  have h2: "convertCellChildren filling_api ?d2 3 ?sr ?s1 =
      convertCellChildren filling_api ?d2 3 ?sr (keep_fresh ?s1 ?s1)"
    by simp
  obtain data2 t2 where e2: "upcastTableCell ''td'' filling_api ?d2 root_state = Inr (data2, t2)"
    by (simp add: upcastTableCell_def engine_defs fixture_defs Let_def)
  have filled: "mchildren (nodes (convertCellChildren filling_api ?d2 3 ?sr ?s1) 3) \<noteq> []"
    by (simp add: engine_defs fixture_defs Let_def)
  from upcastTableCell_not_empty [OF item_test new_cell split2 h2 e2] filled
  have g2: "mchildren (nodes t2 3) \<noteq> [] \<and>
      t2 = convertCellChildren filling_api ?d2 3 ?sr ?s1"
    by blast
  from e1 g1 e2 g2 show ?thesis by blast
qed


end
